theory Spec2Isabelle
  imports Complex_Main "HOL-Library.AList" "HOL-Library.Char_ord" "HOL-Library.List_Lexorder"
    "HOL-Library.Sublist"
begin

section \<open>Strings, identifiers and errors\<close>

text \<open>
  The program is \<^verbatim>\<open>src/main.py\<close>: four FastAPI handlers over two MongoDB
  collections, \<^verbatim>\<open>products\<close> and \<^verbatim>\<open>orders\<close>. Three of them are modelled here,
  \<^verbatim>\<open>create_order\<close>, \<^verbatim>\<open>list_orders\<close> and \<^verbatim>\<open>list_products\<close>; the store of products
  is taken as it is found, whatever \<^verbatim>\<open>create_product\<close> has put there.

  Strings are byte strings. \<^verbatim>\<open>str.lower()\<close> is modelled on ASCII: the letters
  \<^verbatim>\<open>A\<close> to \<^verbatim>\<open>Z\<close> move to \<^verbatim>\<open>a\<close> to \<^verbatim>\<open>z\<close>, every other byte stays.
\<close>

definition lower_char :: "char \<Rightarrow> char" where
  "lower_char c =
     (if CHR ''A'' \<le> c \<and> c \<le> CHR ''Z'' then char_of (of_char c + (32::nat)) else c)"

definition lower :: "string \<Rightarrow> string" where
  "lower s = map lower_char s"

text \<open>
  Every exception the handlers can end with. \<^verbatim>\<open>RequestValidationError\<close> is what FastAPI
  answers (status 422) when a body or query parameter breaks the constraints declared in
  the handler's signature; \<^verbatim>\<open>HTTPException\<close> carries the status code and the detail
  string; \<^verbatim>\<open>InvalidId\<close> is raised by \<^verbatim>\<open>bson.ObjectId\<close>, \<^verbatim>\<open>KeyError\<close> by a dict
  lookup, \<^verbatim>\<open>DuplicateKeyError\<close> by the store.
  \<^verbatim>\<open>RegexOutsideModel\<close> and \<^verbatim>\<open>ObjectIdOutsideModel\<close> are no exceptions of the
  program. The first marks a \<^verbatim>\<open>$regex\<close> pattern that the model of the store's regular
  expressions does not interpret, the second a lookup by an \<^verbatim>\<open>ObjectId\<close> of fewer than
  twelve bytes, which the model of the driver does not interpret.
\<close>

datatype error =
    RequestValidationError
  | HTTPException int string
  | InvalidId
  | KeyError
  | DuplicateKeyError
  | RegexOutsideModel
  | ObjectIdOutsideModel

text \<open>
  A \<^verbatim>\<open>bson.ObjectId\<close> holds bytes, twelve of them when the driver or the store
  generated it. It is kept here as the hexadecimal rendering of its bytes, two lower-case
  digits for each byte, which is the string that \<^verbatim>\<open>str(oid)\<close> returns. The store
  compares identifiers bytewise, which is the lexicographic order of the renderings.
\<close>

datatype objectid = Oid string

fun str_oid :: "objectid \<Rightarrow> string" where
  "str_oid (Oid s) = s"

definition twelve_bytes :: "objectid \<Rightarrow> bool" where
  "twelve_bytes oid = (length (str_oid oid) = 24)"

definition is_hex_digit :: "char \<Rightarrow> bool" where
  "is_hex_digit c =
     (CHR ''0'' \<le> c \<and> c \<le> CHR ''9'' \<or> CHR ''a'' \<le> c \<and> c \<le> CHR ''f'' \<or>
      CHR ''A'' \<le> c \<and> c \<le> CHR ''F'')"

text \<open>
  \<^verbatim>\<open>bytes.fromhex(s)\<close> reads the string two hexadecimal digits at a time, of either
  case, and skips ASCII whitespace (space, tab, line feed, vertical tab, form feed,
  carriage return) in front of a pair; anything else, also whitespace inside a pair or a
  single last digit, is a \<^verbatim>\<open>ValueError\<close>. The result is given by its rendering.
\<close>

definition is_space :: "char \<Rightarrow> bool" where
  "is_space c = (c = CHR 0x20 \<or> CHR 0x09 \<le> c \<and> c \<le> CHR 0x0D)"

fun fromhex :: "string \<Rightarrow> string option" where
  "fromhex [] = Some []"
| "fromhex [c] = (if is_space c then Some [] else None)"
| "fromhex (c # d # ds) =
     (if is_space c then fromhex (d # ds)
      else if is_hex_digit c \<and> is_hex_digit d then
        (case fromhex ds of
           None \<Rightarrow> None
         | Some bs \<Rightarrow> Some (lower_char c # lower_char d # bs))
      else None)"

text \<open>
  \<^verbatim>\<open>ObjectId(s)\<close> for a string: when \<^verbatim>\<open>len(s) == 24\<close> the bytes are
  \<^verbatim>\<open>bytes.fromhex(s)\<close>, and a \<^verbatim>\<open>ValueError\<close> there becomes \<^verbatim>\<open>InvalidId\<close>; any other
  length is \<^verbatim>\<open>InvalidId\<close>. A string of 24 hexadecimal digits gives a twelve-byte
  identifier; a string of 24 characters with whitespace between its pairs of digits is
  accepted as well and gives an identifier of fewer than twelve bytes.
\<close>

definition ObjectId :: "string \<Rightarrow> error + objectid" where
  "ObjectId s =
     (if length s = 24 then
        (case fromhex s of
           None \<Rightarrow> Inl InvalidId
         | Some bs \<Rightarrow> Inr (Oid bs))
      else Inl InvalidId)"

text \<open>
  The strings of 24 hexadecimal digits, of either case: the well-formed product
  identifiers of a request.
\<close>

definition hex24 :: "string \<Rightarrow> bool" where
  "hex24 s = (length s = 24 \<and> list_all is_hex_digit s)"

text \<open>
  \<^verbatim>\<open>[ObjectId(item.product_id) for item in order.items]\<close>: the comprehension stops at
  the first identifier that raises.
\<close>

fun object_ids :: "string list \<Rightarrow> error + objectid list" where
  "object_ids [] = Inr []"
| "object_ids (s # ss) =
     (case ObjectId s of
        Inl e \<Rightarrow> Inl e
      | Inr oid \<Rightarrow>
          (case object_ids ss of
             Inl e \<Rightarrow> Inl e
           | Inr oids \<Rightarrow> Inr (oid # oids)))"

section \<open>Data models\<close>

text \<open>
  The pydantic models of the source. Prices and totals are Python floats; their type is
  the parameter \<open>'n\<close>, and the two float operations the program uses (the product
  \<^verbatim>\<open>float * int\<close> and the builtin \<^verbatim>\<open>sum\<close>) are parameters of \<open>create_order\<close>, so
  that nothing proved below depends on how floating-point arithmetic rounds.
\<close>

record 'n ProductIn =
  name :: string
  description :: "string option"
  price :: 'n
  size_opt :: "string option"

record 'n ProductOut = "'n ProductIn" +
  product_out_id :: string

record OrderItem =
  product_id :: string
  quantity :: int

record OrderIn =
  user_id :: string
  items :: "OrderItem list"

record 'n OrderOut = OrderIn +
  order_out_id :: string
  total :: 'n

text \<open>The documents as the store holds them, with the \<^verbatim>\<open>_id\<close> the store assigned.\<close>

record 'n product_doc =
  product_oid :: objectid
  product_name :: string
  product_description :: "string option"
  product_price :: 'n
  product_size :: "string option"

record 'n order_doc =
  order_oid :: objectid
  order_user_id :: string
  order_items :: "OrderItem list"
  order_total :: 'n

record 'n database =
  products :: "'n product_doc list"
  orders :: "'n order_doc list"

text \<open>
  The constraints of \<^verbatim>\<open>OrderItem\<close> (\<^verbatim>\<open>quantity: int = Field(..., gt=0)\<close>) and of
  \<^verbatim>\<open>OrderIn\<close> (\<^verbatim>\<open>user_id: str = Field(..., min_length=1)\<close>, \<^verbatim>\<open>items: List[OrderItem]\<close>).
  The list of items carries no constraint of its own.
\<close>

definition valid_OrderItem :: "OrderItem \<Rightarrow> bool" where
  "valid_OrderItem item = (0 < quantity item)"

definition valid_OrderIn :: "OrderIn \<Rightarrow> bool" where
  "valid_OrderIn order = (1 \<le> length (user_id order) \<and> list_all valid_OrderItem (items order))"

definition to_lowercase :: "OrderIn \<Rightarrow> OrderIn" where
  "to_lowercase self =
     \<lparr>user_id = lower (user_id self),
      items = map (\<lambda>item. \<lparr>product_id = lower (product_id item), quantity = quantity item\<rparr>)
                (items self)\<rparr>"

section \<open>The store\<close>

text \<open>
  A collection is the list of its documents in insertion order.
  \<^verbatim>\<open>find({"_id": {"$in": ids}})\<close> keeps the documents whose identifier is one of
  \<open>ids\<close>; \<^verbatim>\<open>to_list(length=n)\<close> returns at most \<open>n\<close> documents of a cursor;
  \<^verbatim>\<open>sort("_id", 1)\<close> orders by identifier, ascending; \<^verbatim>\<open>skip\<close> and \<^verbatim>\<open>limit\<close> cut
  the sorted sequence. \<^verbatim>\<open>insert_one\<close> appends the document under the identifier the
  driver generated for it (the argument \<open>new_id\<close> of the handlers) and fails when
  the collection already holds that identifier.
\<close>

definition find_id_in :: "objectid list \<Rightarrow> 'n product_doc list \<Rightarrow> 'n product_doc list" where
  "find_id_in ids coll = filter (\<lambda>p. product_oid p \<in> set ids) coll"

definition to_list :: "nat \<Rightarrow> 'a list \<Rightarrow> 'a list" where
  "to_list n cursor = take n cursor"

definition insert_one :: "'n order_doc \<Rightarrow> 'n order_doc list \<Rightarrow> error + 'n order_doc list" where
  "insert_one doc coll =
     (if order_oid doc \<in> set (map order_oid coll) then Inl DuplicateKeyError
      else Inr (coll @ [doc]))"

text \<open>
  A Python dict built by a comprehension: an association list in insertion order, where
  a key that comes again replaces the value in place, as \<^verbatim>\<open>d[k] = v\<close> does.
\<close>

definition dict_of :: "('k \<times> 'v) list \<Rightarrow> ('k \<times> 'v) list" where
  "dict_of kvs = foldl (\<lambda>d kv. AList.update (fst kv) (snd kv) d) [] kvs"

section \<open>Create Order\<close>

text \<open>
  \<^verbatim>\<open>price_map[item.product_id] * item.quantity for item in order.items\<close>: the generator
  that \<^verbatim>\<open>sum\<close> consumes; a missing key raises \<^verbatim>\<open>KeyError\<close>.
\<close>

fun line_totals ::
  "('n \<Rightarrow> int \<Rightarrow> 'n) \<Rightarrow> (string \<times> 'n) list \<Rightarrow> OrderItem list \<Rightarrow> error + 'n list" where
  "line_totals fmul price_map [] = Inr []"
| "line_totals fmul price_map (item # rest) =
     (case map_of price_map (product_id item) of
        None \<Rightarrow> Inl KeyError
      | Some p \<Rightarrow>
          (case line_totals fmul price_map rest of
             Inl e \<Rightarrow> Inl e
           | Inr ts \<Rightarrow> Inr (fmul p (quantity item) # ts)))"

text \<open>
  The handler of \<^verbatim>\<open>POST /orders\<close>. It returns the response (or the exception) together
  with the database after the call. \<open>fmul\<close> is \<^verbatim>\<open>float * int\<close>, \<open>fsum\<close> is
  \<^verbatim>\<open>sum\<close>, \<open>new_id\<close> is the identifier the driver generates for the inserted document.

  What the driver sends for an \<^verbatim>\<open>ObjectId\<close> of fewer than twelve bytes, and what the
  store answers, is not modelled: the lookup of line 144 with such an identifier ends the
  model with \<^verbatim>\<open>ObjectIdOutsideModel\<close>. The database is unchanged there as it is in the
  program, which cannot reach \<^verbatim>\<open>insert_one\<close> with such an item: if the lookup returns
  at all, the keys of \<^verbatim>\<open>price_map\<close> are renderings of stored identifiers, the item's
  \<^verbatim>\<open>product_id\<close> contains whitespace, and line 149 raises \<^verbatim>\<open>KeyError\<close>.
\<close>

definition create_order ::
  "('n \<Rightarrow> int \<Rightarrow> 'n) \<Rightarrow> ('n list \<Rightarrow> 'n) \<Rightarrow> objectid \<Rightarrow> OrderIn \<Rightarrow> 'n database
     \<Rightarrow> (error + 'n OrderOut) \<times> 'n database" where
  "create_order fmul fsum new_id order_in db =
     (if \<not> valid_OrderIn order_in then (Inl RequestValidationError, db)
      else
        let order = to_lowercase order_in in
        case object_ids (map product_id (items order)) of
          Inl e \<Rightarrow> (Inl e, db)
        | Inr product_ids \<Rightarrow>
            if \<not> list_all twelve_bytes product_ids then (Inl ObjectIdOutsideModel, db)
            else
            let found = to_list (length product_ids) (find_id_in product_ids (products db));
                price_map = dict_of (map (\<lambda>p. (str_oid (product_oid p), product_price p)) found)
            in
              if length price_map \<noteq> length product_ids
              then (Inl (HTTPException 400 ''One or more products not found''), db)
              else
                case line_totals fmul price_map (items order) of
                  Inl e \<Rightarrow> (Inl e, db)
                | Inr ts \<Rightarrow>
                    let tot = fsum ts;
                        doc = \<lparr>order_oid = new_id, order_user_id = user_id order,
                               order_items = items order, order_total = tot\<rparr>
                    in
                      case insert_one doc (orders db) of
                        Inl e \<Rightarrow> (Inl e, db)
                      | Inr coll \<Rightarrow>
                          (Inr \<lparr>user_id = user_id order, items = items order,
                                order_out_id = str_oid new_id, total = tot\<rparr>,
                           db\<lparr>orders := coll\<rparr>))"

text \<open>
  The product that a product identifier of a request refers to: the stored product whose
  \<^verbatim>\<open>_id\<close> is the identifier, normalized to lower case and read as an
  \<^verbatim>\<open>ObjectId\<close> of twelve bytes. An identifier resolves when there is such a product.
\<close>

definition referenced_product :: "'n database \<Rightarrow> string \<Rightarrow> 'n product_doc option" where
  "referenced_product db pid =
     (case ObjectId (lower pid) of
        Inl e \<Rightarrow> None
      | Inr oid \<Rightarrow>
          if twelve_bytes oid then find (\<lambda>p. product_oid p = oid) (products db) else None)"

section \<open>Get Orders by User\<close>

text \<open>
  What the handler makes of a stored order: \<^verbatim>\<open>o["_id"] = str(o["_id"])\<close>; the
  \<^verbatim>\<open>str(item["product_id"])\<close> of every item is the stored string itself.
\<close>

definition order_out :: "'n order_doc \<Rightarrow> 'n OrderOut" where
  "order_out d =
     \<lparr>user_id = order_user_id d, items = order_items d,
      order_out_id = str_oid (order_oid d), total = order_total d\<rparr>"

text \<open>
  The handler of \<^verbatim>\<open>GET /orders/{user_id}\<close>, with the constraints of its signature:
  \<^verbatim>\<open>limit: int = Query(10, ge=1, le=100)\<close>, \<^verbatim>\<open>offset: int = Query(0, ge=0)\<close>.
\<close>

definition list_orders :: "string \<Rightarrow> int \<Rightarrow> int \<Rightarrow> 'n database \<Rightarrow> error + 'n OrderOut list" where
  "list_orders uid limit offset db =
     (if limit < 1 \<or> 100 < limit \<or> offset < 0 then Inl RequestValidationError
      else
        let cursor =
              take (nat limit) (drop (nat offset)
                (sort_key (\<lambda>d. str_oid (order_oid d))
                   (filter (\<lambda>d. order_user_id d = lower uid) (orders db))))
        in Inr (map order_out (to_list (nat limit) cursor)))"

section \<open>List Products\<close>

text \<open>
  The store matches \<^verbatim>\<open>{"$regex": name, "$options": "i"}\<close> as a regular expression,
  searched anywhere in the field, letters compared without case. The model interprets
  the patterns built from ordinary characters and the dot, which matches every character
  but the newline; a pattern with another metacharacter is outside the model.
\<close>

datatype rx_atom = AnyChar | Lit char

definition rx_meta :: "char list" where
  "rx_meta =
     [CHR 0x5C, CHR ''^'', CHR ''$'', CHR ''|'', CHR ''?'', CHR ''*'', CHR ''+'',
      CHR ''('', CHR '')'', CHR ''['', CHR '']'', CHR ''{'', CHR ''}'']"

fun rx_parse :: "string \<Rightarrow> rx_atom list option" where
  "rx_parse [] = Some []"
| "rx_parse (c # cs) =
     (if c \<in> set rx_meta then None
      else
        case rx_parse cs of
          None \<Rightarrow> None
        | Some atoms \<Rightarrow> Some ((if c = CHR ''.'' then AnyChar else Lit c) # atoms))"

fun atom_matches :: "rx_atom \<Rightarrow> char \<Rightarrow> bool" where
  "atom_matches AnyChar c = (c \<noteq> CHR 0x0A)"
| "atom_matches (Lit a) c = (lower_char a = lower_char c)"

fun rx_match_here :: "rx_atom list \<Rightarrow> string \<Rightarrow> bool" where
  "rx_match_here [] s = True"
| "rx_match_here (a # atoms) [] = False"
| "rx_match_here (a # atoms) (c # s) = (atom_matches a c \<and> rx_match_here atoms s)"

fun rx_search :: "rx_atom list \<Rightarrow> string \<Rightarrow> bool" where
  "rx_search atoms [] = rx_match_here atoms []"
| "rx_search atoms (c # s) = (rx_match_here atoms (c # s) \<or> rx_search atoms s)"

text \<open>
  The query dict of \<^verbatim>\<open>list_products\<close>: a key is set only when the parameter is
  truthy (\<^verbatim>\<open>if name:\<close>, \<^verbatim>\<open>if size:\<close>), that is given and not the empty string.
\<close>

record query =
  q_name :: "rx_atom list option"
  q_size :: "string option"

definition name_filter :: "string option \<Rightarrow> error + rx_atom list option" where
  "name_filter name_q =
     (case name_q of
        None \<Rightarrow> Inr None
      | Some s \<Rightarrow>
          if s = [] then Inr None
          else (case rx_parse s of None \<Rightarrow> Inl RegexOutsideModel | Some atoms \<Rightarrow> Inr (Some atoms)))"

definition size_filter :: "string option \<Rightarrow> string option" where
  "size_filter size_q =
     (case size_q of None \<Rightarrow> None | Some s \<Rightarrow> if s = [] then None else Some (lower s))"

definition matches_query :: "query \<Rightarrow> 'n product_doc \<Rightarrow> bool" where
  "matches_query q p =
     ((case q_name q of None \<Rightarrow> True | Some atoms \<Rightarrow> rx_search atoms (product_name p)) \<and>
      (case q_size q of None \<Rightarrow> True | Some s \<Rightarrow> product_size p = Some s))"

definition product_out :: "'n product_doc \<Rightarrow> 'n ProductOut" where
  "product_out p =
     \<lparr>name = product_name p, description = product_description p, price = product_price p,
      size_opt = product_size p, product_out_id = str_oid (product_oid p)\<rparr>"

text \<open>
  The handler of \<^verbatim>\<open>GET /products\<close>, with the constraints of its signature on
  \<^verbatim>\<open>limit\<close> and \<^verbatim>\<open>offset\<close>.
\<close>

definition list_products ::
  "string option \<Rightarrow> string option \<Rightarrow> int \<Rightarrow> int \<Rightarrow> 'n database \<Rightarrow> error + 'n ProductOut list" where
  "list_products name_q size_q limit offset db =
     (if limit < 1 \<or> 100 < limit \<or> offset < 0 then Inl RequestValidationError
      else
        case name_filter name_q of
          Inl e \<Rightarrow> Inl e
        | Inr qn \<Rightarrow>
            let q = \<lparr>q_name = qn, q_size = size_filter size_q\<rparr>;
                cursor =
                  take (nat limit) (drop (nat offset)
                    (sort_key (\<lambda>p. str_oid (product_oid p))
                       (filter (matches_query q) (products db))))
            in Inr (map product_out (to_list (nat limit) cursor)))"

text \<open>
  The words of the specification for the \<^verbatim>\<open>name\<close> parameter, "case-insensitive
  substring filter": the field contains the string as a contiguous part, letters compared
  without case. A literal pattern is a string without a regular-expression metacharacter.
\<close>

definition contains_ci :: "string \<Rightarrow> string \<Rightarrow> bool" where
  "contains_ci s field = sublist (lower s) (lower field)"

definition literal_pattern :: "string \<Rightarrow> bool" where
  "literal_pattern s = list_all (\<lambda>c. c \<notin> set rx_meta \<and> c \<noteq> CHR ''.'') s"

section \<open>Example data\<close>

text \<open>
  The arithmetic of the examples is exact, on rationals. The prices of the examples
  (10.0 and 2.5), their products with the quantities and the sums of these are binary
  floats that Python computes without rounding. \<^verbatim>\<open>sum\<close> starts from 0 and adds from
  the left.
\<close>

definition exact_mul :: "rat \<Rightarrow> int \<Rightarrow> rat" where
  "exact_mul p q = p * of_int q"

definition exact_sum :: "rat list \<Rightarrow> rat" where
  "exact_sum ts = foldl (+) 0 ts"

definition P1 :: string where
  "P1 = ''64b7f0000000000000000001''"

definition P2 :: string where
  "P2 = ''64b7f0000000000000000002''"

definition unknown_id :: string where
  "unknown_id = ''64b7f00000000000000000ff''"

definition product_P1 :: "rat product_doc" where
  "product_P1 =
     \<lparr>product_oid = Oid P1, product_name = ''blue shirt'', product_description = None,
      product_price = 10, product_size = Some ''m''\<rparr>"

definition product_P2 :: "rat product_doc" where
  "product_P2 =
     \<lparr>product_oid = Oid P2, product_name = ''red hat'', product_description = Some ''wool'',
      product_price = 5 / 2, product_size = None\<rparr>"

definition example_db :: "rat database" where
  "example_db = \<lparr>products = [product_P1, product_P2], orders = []\<rparr>"

definition fresh_id :: objectid where
  "fresh_id = Oid ''64b7f0000000000000000a01''"

text \<open>
  A store of fifteen products, inserted in no particular order of their identifiers, and
  a store in which the user "alice" already has ten orders.
\<close>

definition numbered_product :: "string \<Rightarrow> rat product_doc" where
  "numbered_product digits =
     \<lparr>product_oid = Oid (''64b7f00000000000000000'' @ digits), product_name = ''item'',
      product_description = None, product_price = 1, product_size = None\<rparr>"

definition fifteen_products_db :: "rat database" where
  "fifteen_products_db =
     \<lparr>products = map numbered_product
        [''0c'', ''01'', ''0f'', ''03'', ''0a'', ''02'', ''0e'', ''05'', ''04'', ''0b'',
         ''07'', ''06'', ''09'', ''0d'', ''08''],
      orders = []\<rparr>"

definition numbered_order :: "string \<Rightarrow> rat order_doc" where
  "numbered_order digits =
     \<lparr>order_oid = Oid (''64b7f00000000000000000'' @ digits), order_user_id = ''alice'',
      order_items = [\<lparr>product_id = P1, quantity = 1\<rparr>], order_total = 10\<rparr>"

definition ten_orders_db :: "rat database" where
  "ten_orders_db =
     \<lparr>products = [product_P1, product_P2],
      orders = map numbered_order
        [''01'', ''02'', ''03'', ''04'', ''05'', ''06'', ''07'', ''08'', ''09'', ''0a'']\<rparr>"

definition order_two_lines :: OrderIn where
  "order_two_lines =
     \<lparr>user_id = ''Alice'',
      items = [\<lparr>product_id = P1, quantity = 2\<rparr>, \<lparr>product_id = P2, quantity = 4\<rparr>]\<rparr>"

definition order_unknown_product :: OrderIn where
  "order_unknown_product =
     \<lparr>user_id = ''Alice'',
      items = [\<lparr>product_id = P1, quantity = 1\<rparr>, \<lparr>product_id = unknown_id, quantity = 1\<rparr>]\<rparr>"

definition order_duplicate_lines :: OrderIn where
  "order_duplicate_lines =
     \<lparr>user_id = ''Alice'',
      items = [\<lparr>product_id = P1, quantity = 1\<rparr>, \<lparr>product_id = P1, quantity = 1\<rparr>]\<rparr>"

definition order_malformed_id :: OrderIn where
  "order_malformed_id =
     \<lparr>user_id = ''Alice'', items = [\<lparr>product_id = ''xyz'', quantity = 1\<rparr>]\<rparr>"

definition order_no_items :: OrderIn where
  "order_no_items = \<lparr>user_id = ''Alice'', items = []\<rparr>"

definition doc_no_items :: "rat order_doc" where
  "doc_no_items =
     \<lparr>order_oid = fresh_id, order_user_id = ''alice'', order_items = [], order_total = 0\<rparr>"

definition doc_two_lines :: "rat order_doc" where
  "doc_two_lines =
     \<lparr>order_oid = fresh_id, order_user_id = ''alice'',
      order_items = [\<lparr>product_id = P1, quantity = 2\<rparr>, \<lparr>product_id = P2, quantity = 4\<rparr>],
      order_total = 30\<rparr>"

section \<open>Facts about the helpers\<close>

lemma lower_char_idem: "lower_char (lower_char c) = lower_char c"
  unfolding lower_char_def less_eq_char_def by auto

lemma lower_lower: "lower (lower s) = lower s"
  by (simp add: lower_def lower_char_idem)

lemma length_lower: "length (lower s) = length s"
  by (simp add: lower_def)

lemma is_hex_digit_lower: "is_hex_digit (lower_char c) = is_hex_digit c"
  unfolding is_hex_digit_def lower_char_def less_eq_char_def by auto

lemma hex24_lower: "hex24 (lower s) = hex24 s"
  by (simp add: hex24_def lower_def list_all_iff is_hex_digit_lower)

lemma is_space_not_hex: "is_space c \<Longrightarrow> \<not> is_hex_digit c"
  unfolding is_space_def is_hex_digit_def less_eq_char_def by auto

lemma fromhex_hex:
  "list_all is_hex_digit s \<Longrightarrow> even (length s) \<Longrightarrow> fromhex s = Some (lower s)"
  by (induction s rule: fromhex.induct) (auto simp: lower_def is_space_not_hex)

lemma fromhex_length:
  "fromhex s = Some bs \<Longrightarrow>
   length bs \<le> length s \<and> (length bs = length s \<longrightarrow> list_all is_hex_digit s \<and> bs = lower s)"
proof (induction s arbitrary: bs rule: fromhex.induct)
  case 1
  then show ?case by (simp add: lower_def)
next
  case (2 c)
  then show ?case by (simp split: if_splits)
next
  case (3 c d ds)
  show ?case
  proof (cases "is_space c")
    case True
    with 3 have "length bs \<le> length (d # ds)" by simp
    then show ?thesis by simp
  next
    case False
    with "3.prems" obtain bs' where h: "is_hex_digit c" "is_hex_digit d"
      and f: "fromhex ds = Some bs'" and bs: "bs = lower_char c # lower_char d # bs'"
      by (auto split: if_splits option.splits)
    from "3.IH"(2) [OF False _ f] h
    have "length bs' \<le> length ds \<and>
        (length bs' = length ds \<longrightarrow> list_all is_hex_digit ds \<and> bs' = lower ds)"
      by simp
    with h bs show ?thesis by (simp add: lower_def)
  qed
qed

lemma ObjectId_hex24: "hex24 s \<Longrightarrow> ObjectId s = Inr (Oid (lower s))"
  by (simp add: ObjectId_def hex24_def fromhex_hex)

lemma ObjectId_twelve:
  assumes "ObjectId s = Inr oid" and "twelve_bytes oid"
  shows "hex24 s \<and> oid = Oid (lower s)"
proof -
  from assms(1) obtain bs where l: "length s = 24" and f: "fromhex s = Some bs"
    and o: "oid = Oid bs"
    by (auto simp: ObjectId_def split: if_splits option.splits)
  from assms(2) o have "length bs = length s" by (simp add: twelve_bytes_def l)
  with fromhex_length [OF f] l o show ?thesis by (simp add: hex24_def)
qed

lemma ObjectId_error: "ObjectId s = Inl e \<Longrightarrow> e = InvalidId"
  by (auto simp: ObjectId_def split: if_splits option.splits)

lemma object_ids_valid:
  "list_all hex24 ss \<Longrightarrow> object_ids ss = Inr (map (\<lambda>s. Oid (lower s)) ss)"
  by (induction ss) (simp_all add: ObjectId_hex24)

lemma object_ids_invalid:
  "\<exists>s \<in> set ss. ObjectId s = Inl InvalidId \<Longrightarrow> object_ids ss = Inl InvalidId"
proof (induction ss)
  case Nil
  then show ?case by simp
next
  case (Cons a ss)
  show ?case
  proof (cases "ObjectId a")
    case (Inl e)
    with ObjectId_error [of a e] show ?thesis by simp
  next
    case (Inr oid)
    with Cons.prems have "\<exists>s \<in> set ss. ObjectId s = Inl InvalidId" by auto
    from Cons.IH [OF this] Inr show ?thesis by simp
  qed
qed

lemma referenced_product_eq:
  "referenced_product db pid =
     (if hex24 pid then find (\<lambda>p. product_oid p = Oid (lower pid)) (products db) else None)"
proof (cases "hex24 pid")
  case True
  then have "hex24 (lower pid)" by (simp add: hex24_lower)
  from ObjectId_hex24 [OF this] True show ?thesis
    by (simp add: referenced_product_def lower_lower twelve_bytes_def hex24_def length_lower)
next
  case False
  then have "\<not> hex24 (lower pid)" by (simp add: hex24_lower)
  with ObjectId_twelve [of "lower pid"] False show ?thesis
    by (auto simp: referenced_product_def split: sum.splits)
qed

lemma dict_of_distinct_aux:
  "distinct (map fst d @ map fst kvs) \<Longrightarrow>
   foldl (\<lambda>d kv. AList.update (fst kv) (snd kv) d) d kvs = d @ kvs"
proof (induction kvs arbitrary: d)
  case Nil
  then show ?case by simp
next
  case (Cons kv kvs)
  have u: "AList.update (fst kv) (snd kv) d = d @ [kv]"
    using Cons.prems by (induction d) auto
  from Cons.prems have "distinct (map fst (d @ [kv]) @ map fst kvs)" by auto
  from Cons.IH [OF this] u show ?case by simp
qed

lemma dict_of_distinct: "distinct (map fst kvs) \<Longrightarrow> dict_of kvs = kvs"
  using dict_of_distinct_aux [of "[]" kvs] by (simp add: dict_of_def)

lemma dict_keys_fold:
  "distinct (map fst d) \<Longrightarrow>
   distinct (map fst (foldl (\<lambda>d kv. AList.update (fst kv) (snd kv) d) d kvs)) \<and>
   fst ` set (foldl (\<lambda>d kv. AList.update (fst kv) (snd kv) d) d kvs) = fst ` set d \<union> fst ` set kvs"
  by (induction kvs arbitrary: d) (auto simp: distinct_update dom_update)

lemma length_dict_of: "length (dict_of kvs) = card (fst ` set kvs)"
proof -
  have d: "distinct (map fst (dict_of kvs))" and s: "fst ` set (dict_of kvs) = fst ` set kvs"
    using dict_keys_fold [of "[]" kvs] by (simp_all add: dict_of_def)
  have "length (dict_of kvs) = length (map fst (dict_of kvs))" by simp
  also have "\<dots> = card (set (map fst (dict_of kvs)))" using d by (simp only: distinct_card)
  also have "\<dots> = card (fst ` set kvs)" using s by simp
  finally show ?thesis .
qed

lemma map_of_map_find:
  "map_of (map (\<lambda>p. (f p, g p)) xs) k = map_option g (find (\<lambda>p. f p = k) xs)"
  by (induction xs) auto

lemma find_filter: "find P (filter Q xs) = find (\<lambda>x. Q x \<and> P x) xs"
  by (induction xs) auto

lemma line_totals_Inr:
  "\<forall>it \<in> set its. map_of pm (product_id it) = Some (pr it) \<Longrightarrow>
   line_totals fmul pm its = Inr (map (\<lambda>it. fmul (pr it) (quantity it)) its)"
  by (induction its) auto

lemma referenced_product_None:
  "referenced_product db pid = None \<longleftrightarrow>
     \<not> (hex24 pid \<and> Oid (lower pid) \<in> product_oid ` set (products db))"
  unfolding referenced_product_eq
  by (cases "hex24 pid") (auto simp: find_None_iff intro: rev_image_eqI)

lemma referenced_product_iff:
  "referenced_product db pid \<noteq> None \<longleftrightarrow>
     hex24 pid \<and> Oid (lower pid) \<in> product_oid ` set (products db)"
  by (simp add: referenced_product_None)

lemma referenced_product_find:
  "referenced_product db pid \<noteq> None \<Longrightarrow>
   referenced_product db pid = find (\<lambda>p. product_oid p = Oid (lower pid)) (products db)"
  by (cases "hex24 pid") (simp_all add: referenced_product_eq)

lemma inj_str_oid: "inj str_oid"
  by (rule injI) (metis objectid.exhaust str_oid.simps)

lemma inj_Oid: "inj Oid"
  by (rule injI) simp

lemma found_all:
  assumes store: "distinct (map product_oid ps)" and ids: "distinct ids"
  shows "to_list (length ids) (find_id_in (map Oid ids) ps) = find_id_in (map Oid ids) ps"
    and "distinct (map product_oid (find_id_in (map Oid ids) ps))"
    and "length (find_id_in (map Oid ids) ps) = length ids \<longleftrightarrow> Oid ` set ids \<subseteq> product_oid ` set ps"
proof -
  let ?F = "find_id_in (map Oid ids) ps"
  show d: "distinct (map product_oid ?F)"
    using store by (simp add: find_id_in_def distinct_map_filter)
  have s: "set (map product_oid ?F) = Oid ` set ids \<inter> product_oid ` set ps"
    by (force simp: find_id_in_def)
  have c: "card (Oid ` set ids) = length ids"
    using ids by (simp add: card_image inj_Oid [THEN inj_on_subset] distinct_card)
  have l: "length ?F = card (Oid ` set ids \<inter> product_oid ` set ps)"
    using d s by (metis distinct_card length_map)
  have le: "length ?F \<le> length ids"
    unfolding l c [symmetric] by (rule card_mono) auto
  then show "to_list (length ids) ?F = ?F"
    by (simp add: to_list_def)
  show "length ?F = length ids \<longleftrightarrow> Oid ` set ids \<subseteq> product_oid ` set ps"
  proof
    assume "length ?F = length ids"
    then have "card (Oid ` set ids \<inter> product_oid ` set ps) = card (Oid ` set ids)"
      using l c by simp
    then have "Oid ` set ids \<inter> product_oid ` set ps = Oid ` set ids"
      by (intro card_subset_eq) auto
    then show "Oid ` set ids \<subseteq> product_oid ` set ps" by blast
  next
    assume "Oid ` set ids \<subseteq> product_oid ` set ps"
    then have "Oid ` set ids \<inter> product_oid ` set ps = Oid ` set ids" by blast
    then show "length ?F = length ids" using l c by simp
  qed
qed

lemma price_map_found:
  assumes "distinct (map product_oid F)"
  shows "dict_of (map (\<lambda>p. (str_oid (product_oid p), product_price p)) F) =
           map (\<lambda>p. (str_oid (product_oid p), product_price p)) F"
proof (rule dict_of_distinct)
  from assms have "distinct F" and i: "inj_on product_oid (set F)"
    by (simp_all add: distinct_map)
  from i have "inj_on (\<lambda>p. str_oid (product_oid p)) (set F)"
    by (auto simp: inj_on_def dest: injD [OF inj_str_oid])
  with \<open>distinct F\<close> show "distinct (map fst (map (\<lambda>p. (str_oid (product_oid p), product_price p)) F))"
    by (simp add: distinct_map comp_def)
qed

lemma price_map_lookup:
  assumes "k \<in> set ids"
  shows "map_of (map (\<lambda>p. (str_oid (product_oid p), product_price p)) (find_id_in (map Oid ids) ps)) k =
           map_option product_price (find (\<lambda>p. product_oid p = Oid k) ps)"
proof -
  have "find (\<lambda>p. product_oid p \<in> set (map Oid ids) \<and> str_oid (product_oid p) = k) ps =
      find (\<lambda>p. product_oid p = Oid k) ps"
    using assms by (intro arg_cong [where f = "\<lambda>P. find P ps"]) (auto simp: fun_eq_iff)
  then show ?thesis
    unfolding map_of_map_find find_id_in_def find_filter by simp
qed

lemma normalized_ids:
  assumes "list_all (\<lambda>it. hex24 (product_id it)) (items order_in)"
  shows "object_ids (map product_id (items (to_lowercase order_in))) =
           Inr (map Oid (map (\<lambda>it. lower (product_id it)) (items order_in)))"
    and "list_all twelve_bytes (map Oid (map (\<lambda>it. lower (product_id it)) (items order_in)))"
proof -
  have "list_all hex24 (map product_id (items (to_lowercase order_in)))"
    using assms by (simp add: to_lowercase_def list_all_iff hex24_lower)
  from object_ids_valid [OF this]
  show "object_ids (map product_id (items (to_lowercase order_in))) =
           Inr (map Oid (map (\<lambda>it. lower (product_id it)) (items order_in)))"
    by (simp add: to_lowercase_def comp_def lower_lower)
  from assms
  show "list_all twelve_bytes (map Oid (map (\<lambda>it. lower (product_id it)) (items order_in)))"
    by (simp add: list_all_iff twelve_bytes_def hex24_def length_lower)
qed

lemma valid_ids_of_resolved:
  assumes "\<forall>it \<in> set its. referenced_product db (product_id it) \<noteq> None"
  shows "list_all (\<lambda>it. hex24 (product_id it)) its"
    and "Oid ` set (map (\<lambda>it. lower (product_id it)) its) \<subseteq> product_oid ` set (products db)"
proof -
  from assms have a: "\<forall>it \<in> set its. hex24 (product_id it) \<and>
      Oid (lower (product_id it)) \<in> product_oid ` set (products db)"
    unfolding referenced_product_iff .
  from a show "list_all (\<lambda>it. hex24 (product_id it)) its"
    by (simp add: list_all_iff)
  from a show "Oid ` set (map (\<lambda>it. lower (product_id it)) its) \<subseteq> product_oid ` set (products db)"
    by auto
qed

lemma line_totals_resolved:
  assumes exist: "\<forall>it \<in> set its. referenced_product db (product_id it) \<noteq> None"
  shows "line_totals fmul
           (map (\<lambda>p. (str_oid (product_oid p), product_price p))
              (find_id_in (map Oid (map (\<lambda>it. lower (product_id it)) its)) (products db)))
           (map (\<lambda>item. \<lparr>product_id = lower (product_id item), quantity = quantity item\<rparr>) its) =
         Inr (map (\<lambda>it. fmul (product_price (the (referenced_product db (product_id it)))) (quantity it)) its)"
proof -
  let ?ids = "map (\<lambda>it. lower (product_id it)) its"
  let ?pm = "map (\<lambda>p. (str_oid (product_oid p), product_price p)) (find_id_in (map Oid ?ids) (products db))"
  let ?pr = "\<lambda>it'. product_price (the (find (\<lambda>p. product_oid p = Oid (product_id it')) (products db)))"
  have "\<forall>it' \<in> set (map (\<lambda>item. \<lparr>product_id = lower (product_id item), quantity = quantity item\<rparr>) its).
          map_of ?pm (product_id it') = Some (?pr it')"
  proof
    fix it' assume "it' \<in> set (map (\<lambda>item. \<lparr>product_id = lower (product_id item), quantity = quantity item\<rparr>) its)"
    then obtain it where it: "it \<in> set its" and e: "product_id it' = lower (product_id it)"
      by auto
    from it have k: "product_id it' \<in> set ?ids" using e by auto
    from it exist have "referenced_product db (product_id it) \<noteq> None" by blast
    then have "find (\<lambda>p. product_oid p = Oid (product_id it')) (products db) \<noteq> None"
      using referenced_product_find [of db "product_id it"] e by simp
    then show "map_of ?pm (product_id it') = Some (?pr it')"
      unfolding price_map_lookup [OF k] by auto
  qed
  from line_totals_Inr [OF this, of fmul]
  have "line_totals fmul ?pm (map (\<lambda>item. \<lparr>product_id = lower (product_id item), quantity = quantity item\<rparr>) its) =
     Inr (map (\<lambda>it. fmul (?pr \<lparr>product_id = lower (product_id it), quantity = quantity it\<rparr>) (quantity it)) its)"
    by (simp add: comp_def)
  also have "map (\<lambda>it. fmul (?pr \<lparr>product_id = lower (product_id it), quantity = quantity it\<rparr>) (quantity it)) its =
     map (\<lambda>it. fmul (product_price (the (referenced_product db (product_id it)))) (quantity it)) its"
    using exist by (intro map_cong refl) (simp add: referenced_product_find)
  finally show ?thesis .
qed

lemma create_order_resolved_insert:
  assumes valid: "valid_OrderIn order_in"
      and exist: "\<forall>it \<in> set (items order_in). referenced_product db (product_id it) \<noteq> None"
      and dist: "distinct (map (\<lambda>it. lower (product_id it)) (items order_in))"
      and store: "distinct (map product_oid (products db))"
  shows "create_order fmul fsum new_id order_in db =
     (case insert_one
         \<lparr>order_oid = new_id, order_user_id = lower (user_id order_in),
          order_items = items (to_lowercase order_in),
          order_total = fsum (map (\<lambda>it. fmul (product_price (the (referenced_product db (product_id it))))
                                      (quantity it)) (items order_in))\<rparr> (orders db) of
        Inl e \<Rightarrow> (Inl e, db)
      | Inr coll \<Rightarrow>
         (Inr \<lparr>user_id = lower (user_id order_in), items = items (to_lowercase order_in),
               order_out_id = str_oid new_id,
               total = fsum (map (\<lambda>it. fmul (product_price (the (referenced_product db (product_id it))))
                                      (quantity it)) (items order_in))\<rparr>,
          db\<lparr>orders := coll\<rparr>))"
proof -
  define ids where "ids = map (\<lambda>it. lower (product_id it)) (items order_in)"
  define F where "F = find_id_in (map Oid ids) (products db)"
  define pm where "pm = map (\<lambda>p. (str_oid (product_oid p), product_price p)) F"
  define ts where "ts = map (\<lambda>it. fmul (product_price (the (referenced_product db (product_id it))))
                                      (quantity it)) (items order_in)"
  note r = valid_ids_of_resolved [OF exist]
  have dist': "distinct ids" using dist by (simp add: ids_def)
  note f = found_all [OF store dist', folded F_def]
  have oids: "object_ids (map product_id (items (to_lowercase order_in))) = Inr (map Oid ids)"
    unfolding ids_def by (rule normalized_ids(1) [OF r(1)])
  have tw: "list_all twelve_bytes (map Oid ids)"
    unfolding ids_def by (rule normalized_ids(2) [OF r(1)])
  have found: "to_list (length (map Oid ids)) (find_id_in (map Oid ids) (products db)) = F"
    using f(1) by (simp add: F_def)
  have price_map: "dict_of (map (\<lambda>p. (str_oid (product_oid p), product_price p)) F) = pm"
    unfolding pm_def by (rule price_map_found [OF f(2)])
  have len: "length pm = length (map Oid ids)"
    using f(3) r(2) by (simp add: pm_def ids_def)
  have its: "items (to_lowercase order_in) =
      map (\<lambda>item. \<lparr>product_id = lower (product_id item), quantity = quantity item\<rparr>) (items order_in)"
    by (simp add: to_lowercase_def)
  have lt: "line_totals fmul pm (items (to_lowercase order_in)) = Inr ts"
    unfolding pm_def F_def ids_def its ts_def by (rule line_totals_resolved [OF exist])
  have uid: "user_id (to_lowercase order_in) = lower (user_id order_in)"
    by (simp add: to_lowercase_def)
  show ?thesis
    unfolding create_order_def Let_def oids sum.case found price_map lt uid ts_def [symmetric]
    using valid len tw by simp
qed

lemma create_order_resolved:
  assumes valid: "valid_OrderIn order_in"
      and exist: "\<forall>it \<in> set (items order_in). referenced_product db (product_id it) \<noteq> None"
      and dist: "distinct (map (\<lambda>it. lower (product_id it)) (items order_in))"
      and store: "distinct (map product_oid (products db))"
      and fresh: "new_id \<notin> set (map order_oid (orders db))"
  shows "create_order fmul fsum new_id order_in db =
     (Inr \<lparr>user_id = lower (user_id order_in), items = items (to_lowercase order_in),
           order_out_id = str_oid new_id,
           total = fsum (map (\<lambda>it. fmul (product_price (the (referenced_product db (product_id it))))
                                      (quantity it)) (items order_in))\<rparr>,
      db\<lparr>orders := orders db @
        [\<lparr>order_oid = new_id, order_user_id = lower (user_id order_in),
          order_items = items (to_lowercase order_in),
          order_total = fsum (map (\<lambda>it. fmul (product_price (the (referenced_product db (product_id it))))
                                      (quantity it)) (items order_in))\<rparr>]\<rparr>)"
  unfolding create_order_resolved_insert [OF valid exist dist store]
  using fresh by (simp add: insert_one_def)

lemma create_order_resolved_not_400:
  assumes valid: "valid_OrderIn order_in"
      and exist: "\<forall>it \<in> set (items order_in). referenced_product db (product_id it) \<noteq> None"
      and dist: "distinct (map (\<lambda>it. lower (product_id it)) (items order_in))"
      and store: "distinct (map product_oid (products db))"
  shows "fst (create_order fmul fsum new_id order_in db) \<noteq> Inl (HTTPException c m)"
  unfolding create_order_resolved_insert [OF valid exist dist store]
  by (simp add: insert_one_def)

lemma price_map_keys:
  "fst ` set (map (\<lambda>p. (str_oid (product_oid p), product_price p))
       (to_list n (find_id_in (map Oid ids) ps))) \<subseteq> set ids"
proof -
  have "set (to_list n (find_id_in (map Oid ids) ps)) \<subseteq> set (find_id_in (map Oid ids) ps)"
    unfolding to_list_def by (rule set_take_subset)
  then show ?thesis
    by (auto simp: find_id_in_def)
qed

lemma create_order_duplicate_ids:
  assumes valid: "valid_OrderIn order_in"
      and wf: "list_all (\<lambda>it. hex24 (product_id it)) (items order_in)"
      and dup: "\<not> distinct (map (\<lambda>it. lower (product_id it)) (items order_in))"
  shows "create_order fmul fsum new_id order_in db =
           (Inl (HTTPException 400 ''One or more products not found''), db)"
proof -
  define ids where "ids = map (\<lambda>it. lower (product_id it)) (items order_in)"
  define pm where "pm = dict_of (map (\<lambda>p. (str_oid (product_oid p), product_price p))
       (to_list (length (map Oid ids)) (find_id_in (map Oid ids) (products db))))"
  have oids: "object_ids (map product_id (items (to_lowercase order_in))) = Inr (map Oid ids)"
    unfolding ids_def by (rule normalized_ids(1) [OF wf])
  have tw: "list_all twelve_bytes (map Oid ids)"
    unfolding ids_def by (rule normalized_ids(2) [OF wf])
  have "length pm \<le> card (set ids)"
    unfolding pm_def length_dict_of by (rule card_mono [OF _ price_map_keys]) simp
  also have "card (set ids) < length ids"
    using dup card_length [of ids] distinct_card [of ids] card_distinct [of ids]
    by (fastforce simp: ids_def)
  finally have len: "length pm \<noteq> length (map Oid ids)" by simp
  show ?thesis
    unfolding create_order_def Let_def oids sum.case pm_def [symmetric]
    using valid len tw by simp
qed

lemma create_order_unresolved:
  assumes valid: "valid_OrderIn order_in"
      and wf: "list_all (\<lambda>it. hex24 (product_id it)) (items order_in)"
      and unres: "\<exists>it \<in> set (items order_in). referenced_product db (product_id it) = None"
  shows "create_order fmul fsum new_id order_in db =
           (Inl (HTTPException 400 ''One or more products not found''), db)"
proof (cases "distinct (map (\<lambda>it. lower (product_id it)) (items order_in))")
  case False
  from create_order_duplicate_ids [OF valid wf False] show ?thesis .
next
  case True
  define ids where "ids = map (\<lambda>it. lower (product_id it)) (items order_in)"
  define pm where "pm = dict_of (map (\<lambda>p. (str_oid (product_oid p), product_price p))
       (to_list (length (map Oid ids)) (find_id_in (map Oid ids) (products db))))"
  have oids: "object_ids (map product_id (items (to_lowercase order_in))) = Inr (map Oid ids)"
    unfolding ids_def by (rule normalized_ids(1) [OF wf])
  have tw: "list_all twelve_bytes (map Oid ids)"
    unfolding ids_def by (rule normalized_ids(2) [OF wf])
  from unres obtain it where it: "it \<in> set (items order_in)"
    and none: "referenced_product db (product_id it) = None" by blast
  from it wf have "hex24 (product_id it)" by (simp add: list_all_iff)
  with none have missing: "Oid (lower (product_id it)) \<notin> product_oid ` set (products db)"
    by (simp add: referenced_product_None)
  have k: "lower (product_id it) \<in> set ids" using it by (simp add: ids_def)
  let ?keys = "fst ` set (map (\<lambda>p. (str_oid (product_oid p), product_price p))
       (to_list (length (map Oid ids)) (find_id_in (map Oid ids) (products db))))"
  have "lower (product_id it) \<notin> ?keys"
  proof
    assume "lower (product_id it) \<in> ?keys"
    then obtain p where p: "p \<in> set (to_list (length (map Oid ids)) (find_id_in (map Oid ids) (products db)))"
      and s: "str_oid (product_oid p) = lower (product_id it)"
      by auto
    from p have "p \<in> set (products db)"
      unfolding to_list_def find_id_in_def by (auto dest: in_set_takeD)
    moreover from s have "product_oid p = Oid (lower (product_id it))"
      by (cases "product_oid p") simp
    ultimately show False using missing by force
  qed
  with price_map_keys [of "length (map Oid ids)" ids "products db"]
  have "?keys \<subseteq> set ids - {lower (product_id it)}"
    by blast
  then have "length pm \<le> card (set ids - {lower (product_id it)})"
    unfolding pm_def length_dict_of by (intro card_mono) simp_all
  also have "\<dots> < card (set ids)"
    using k by (intro psubset_card_mono) auto
  also have "\<dots> \<le> length ids" by (rule card_length)
  finally have len: "length pm \<noteq> length (map Oid ids)" by simp
  show ?thesis
    unfolding create_order_def Let_def oids sum.case pm_def [symmetric]
    using valid len tw by simp
qed

lemma create_order_invalid_id:
  assumes valid: "valid_OrderIn order_in"
      and bad: "\<exists>it \<in> set (items order_in). ObjectId (lower (product_id it)) = Inl InvalidId"
  shows "create_order fmul fsum new_id order_in db = (Inl InvalidId, db)"
proof -
  have "\<exists>s \<in> set (map product_id (items (to_lowercase order_in))). ObjectId s = Inl InvalidId"
    using bad by (simp add: to_lowercase_def)
  from object_ids_invalid [OF this] valid show ?thesis
    by (simp add: create_order_def)
qed

lemma sorted_by_id:
  assumes "distinct (map product_oid ps)"
  shows "sorted_wrt (<) (map (\<lambda>p. str_oid (product_oid p))
           (sort_key (\<lambda>p. str_oid (product_oid p)) (filter P ps)))"
proof -
  let ?f = "\<lambda>p. str_oid (product_oid p)"
  from assms have d: "distinct ps" and i: "inj_on product_oid (set ps)"
    by (simp_all add: distinct_map)
  from i have "inj_on ?f (set ps)"
    by (auto simp: inj_on_def dest: injD [OF inj_str_oid])
  then have "inj_on ?f (set (filter P ps))"
    by (rule inj_on_subset) auto
  with d have "distinct (map ?f (sort_key ?f (filter P ps)))"
    by (simp add: distinct_map)
  moreover have "sorted (map ?f (sort_key ?f (filter P ps)))"
    by (rule sorted_sort_key)
  ultimately show ?thesis
    by (simp add: strict_sorted_iff)
qed

lemma product_out_id_out: "product_out_id (product_out p) = str_oid (product_oid p)"
  by (simp add: product_out_def)

lemma list_products_Inr:
  assumes "list_products name_q size_q limit offset db = Inr page"
  shows "1 \<le> limit \<and> limit \<le> 100 \<and> 0 \<le> offset \<and>
         (\<exists>qn. name_filter name_q = Inr qn \<and>
            page = take (nat limit) (drop (nat offset)
              (map product_out (sort_key (\<lambda>p. str_oid (product_oid p))
                 (filter (matches_query \<lparr>q_name = qn, q_size = size_filter size_q\<rparr>) (products db))))))"
  using assms
  by (auto simp: list_products_def to_list_def Let_def take_map drop_map
      split: if_splits sum.splits)

lemma disjoint_pages:
  assumes "distinct xs"
  shows "set (take l (drop k xs)) \<inter> set (take l (drop (k + l) xs)) = {}"
proof -
  have e: "drop (k + l) xs = drop l (drop k xs)"
    by (simp add: add.commute)
  have "set (take l (drop k xs)) \<inter> set (drop l (drop k xs)) = {}"
    using assms by (intro set_take_disj_set_drop_if_distinct) simp_all
  moreover have "set (take l (drop l (drop k xs))) \<subseteq> set (drop l (drop k xs))"
    by (rule set_take_subset)
  ultimately show ?thesis unfolding e by blast
qed

lemma nth_in_sorted:
  fixes f :: "'a \<Rightarrow> 'k::linorder"
  assumes "sorted (map f L)" and "distinct (map f L)" and "x \<in> set L"
  shows "length (filter (\<lambda>y. f y < f x) L) < length L \<and>
         L ! length (filter (\<lambda>y. f y < f x) L) = x"
  using assms
proof (induction L)
  case Nil
  then show ?case by simp
next
  case (Cons a L)
  show ?case
  proof (cases "x = a")
    case True
    from Cons.prems(1) have "\<forall>y \<in> set L. f a \<le> f y" by simp
    then have "filter (\<lambda>y. f y < f a) L = []"
      by (auto simp: filter_empty_conv)
    with True show ?thesis by simp
  next
    case False
    with Cons.prems have x: "x \<in> set L" by simp
    from Cons.prems(1) x have "f a \<le> f x" by simp
    moreover from Cons.prems(2) x have "f a \<noteq> f x" by auto
    ultimately have lt: "f a < f x" by simp
    from Cons.prems have "sorted (map f L)" and "distinct (map f L)" by simp_all
    from Cons.IH [OF this x] lt show ?thesis by simp
  qed
qed

lemma in_page:
  assumes "k < length L" and "L ! k = x" and "off \<le> k" and "k < off + l"
  shows "x \<in> set (take l (drop off L))"
proof -
  have "k - off < length (take l (drop off L))"
    using assms by (simp add: less_diff_conv2)
  moreover have "take l (drop off L) ! (k - off) = x"
    using assms by simp
  ultimately show ?thesis
    by (metis nth_mem)
qed

lemma create_order_success:
  assumes "create_order fmul fsum new_id order_in db = (Inr r, db')"
  shows "new_id \<notin> set (map order_oid (orders db)) \<and>
         (\<exists>doc. orders db' = orders db @ [doc] \<and> r = order_out doc \<and> order_oid doc = new_id \<and>
            order_user_id doc = lower (user_id order_in))"
  using assms
  by (auto simp: create_order_def insert_one_def Let_def order_out_def to_lowercase_def
      split: sum.splits if_splits)

lemma rx_parse_literal: "literal_pattern s \<Longrightarrow> rx_parse s = Some (map Lit s)"
  by (induction s) (simp_all add: literal_pattern_def)

lemma rx_match_here_literal: "rx_match_here (map Lit s) t \<longleftrightarrow> prefix (lower s) (lower t)"
proof (induction s arbitrary: t)
  case Nil
  then show ?case by (simp add: lower_def)
next
  case (Cons c s)
  then show ?case by (cases t) (auto simp: lower_def)
qed

lemma rx_search_literal: "rx_search (map Lit s) t \<longleftrightarrow> contains_ci s t"
proof (induction t)
  case Nil
  then show ?case
    by (simp add: rx_match_here_literal contains_ci_def lower_def)
next
  case (Cons c t)
  have "sublist (lower s) (lower (c # t)) \<longleftrightarrow>
      prefix (lower s) (lower (c # t)) \<or> sublist (lower s) (lower t)"
    by (simp add: lower_def sublist_Cons_right)
  with Cons show ?case
    by (simp add: rx_match_here_literal contains_ci_def)
qed

lemma name_filter_literal:
  assumes "literal_pattern s" and "s \<noteq> []"
  shows "name_filter (Some s) = Inr (Some (map Lit s))"
  using assms by (simp add: name_filter_def rx_parse_literal)

section \<open>The Order Pricing Engine\<close>

text \<open>
  C1. For every valid order whose items all refer to products of the Product Store and
  whose normalized product identifiers are pairwise distinct, \<open>create_order\<close> succeeds
  and the total of the response is the sum, over the items in order, of the price of the
  referenced product times the quantity of the item. The store holds no two products under
  one \<^verbatim>\<open>_id\<close> and the generated identifier is new to the orders collection. The
  witness is the example of the specification: P1 at 10.0, P2 at 2.5, two of P1 and four
  of P2 give the total 30.
\<close>

theorem create_order_total:
  assumes valid: "valid_OrderIn order_in"
      and exist: "\<forall>it \<in> set (items order_in). referenced_product db (product_id it) \<noteq> None"
      and dist: "distinct (map (\<lambda>it. lower (product_id it)) (items order_in))"
      and store: "distinct (map product_oid (products db))"
      and fresh: "new_id \<notin> set (map order_oid (orders db))"
  shows "\<exists>r db'. create_order fmul fsum new_id order_in db = (Inr r, db') \<and>
           total r = fsum (map (\<lambda>it. fmul (product_price (the (referenced_product db (product_id it))))
                                      (quantity it)) (items order_in))"
  unfolding create_order_resolved [OF assms] by simp

theorem create_order_total_witness:
  "\<exists>r db'. create_order exact_mul exact_sum fresh_id order_two_lines example_db = (Inr r, db') \<and>
     total r = 30"
proof -
  have valid: "valid_OrderIn order_two_lines"
    by code_simp
  have exist: "\<forall>it \<in> set (items order_two_lines). referenced_product example_db (product_id it) \<noteq> None"
    by code_simp
  have dist: "distinct (map (\<lambda>it. lower (product_id it)) (items order_two_lines))"
    by code_simp
  have store: "distinct (map product_oid (products example_db))"
    by code_simp
  have fresh: "fresh_id \<notin> set (map order_oid (orders example_db))"
    by code_simp
  have t: "exact_sum (map (\<lambda>it. exact_mul (product_price (the (referenced_product example_db (product_id it))))
                                      (quantity it)) (items order_two_lines)) = 30"
    by code_simp
  from create_order_total [OF valid exist dist store fresh, of exact_mul exact_sum] t
  show ?thesis by simp
qed

text \<open>
  C2. Duplicate product identifiers. When the same normalized product identifier occurs in
  two items of a valid order with well-formed identifiers, \<open>create_order\<close> raises the
  400 error "One or more products not found", also when every product exists: the check
  compares the number of distinct identifiers found with the number of items. The witness
  is the order of the specification's example, one of P1 twice, on a store that holds P1.
\<close>

theorem create_order_duplicate_ids_rejected:
  assumes "valid_OrderIn order_in"
      and "list_all (\<lambda>it. hex24 (product_id it)) (items order_in)"
      and "\<not> distinct (map (\<lambda>it. lower (product_id it)) (items order_in))"
  shows "create_order fmul fsum new_id order_in db =
           (Inl (HTTPException 400 ''One or more products not found''), db)"
  using assms by (rule create_order_duplicate_ids)

theorem create_order_duplicate_ids_rejected_witness:
  "list_all (\<lambda>it. referenced_product example_db (product_id it) \<noteq> None) (items order_duplicate_lines) \<and>
   create_order exact_mul exact_sum fresh_id order_duplicate_lines example_db =
     (Inl (HTTPException 400 ''One or more products not found''), example_db)"
proof -
  have valid: "valid_OrderIn order_duplicate_lines"
    by code_simp
  have wf: "list_all (\<lambda>it. hex24 (product_id it)) (items order_duplicate_lines)"
    by code_simp
  have dup: "\<not> distinct (map (\<lambda>it. lower (product_id it)) (items order_duplicate_lines))"
    by code_simp
  have exist: "list_all (\<lambda>it. referenced_product example_db (product_id it) \<noteq> None)
      (items order_duplicate_lines)"
    by code_simp
  from create_order_duplicate_ids_rejected [OF valid wf dup] exist
  show ?thesis by simp
qed

text \<open>
  C3. When \<open>create_order\<close> answers 400 "One or more products not found". Take a valid
  order and a store with no two products under one \<^verbatim>\<open>_id\<close>. If the product
  identifiers of the order are strings of 24 hexadecimal digits, the 400 error is raised
  if and only if some product identifier resolves to no product of the store or some
  normalized product identifier occurs in two items: the check of line 146 compares the
  number of distinct identifiers found with the number of items, so an order whose
  products all exist is rejected as well when it names one of them twice. If
  \<^verbatim>\<open>ObjectId\<close> rejects a product identifier, which then resolves to no product, the
  error is \<^verbatim>\<open>InvalidId\<close> and not the 400 error. The witness runs the four cases: P1
  twice (400, both items resolve), P1 and an unknown identifier (400), two of P1 and four
  of P2 (no 400), and the identifier "xyz" (\<^verbatim>\<open>InvalidId\<close>).
\<close>

theorem create_order_not_found_condition:
  assumes valid: "valid_OrderIn order_in"
      and store: "distinct (map product_oid (products db))"
  shows "(list_all (\<lambda>it. hex24 (product_id it)) (items order_in) \<longrightarrow>
            (fst (create_order fmul fsum new_id order_in db) =
               Inl (HTTPException 400 ''One or more products not found'') \<longleftrightarrow>
             (\<exists>it \<in> set (items order_in). referenced_product db (product_id it) = None) \<or>
             \<not> distinct (map (\<lambda>it. lower (product_id it)) (items order_in)))) \<and>
         ((\<exists>it \<in> set (items order_in). ObjectId (lower (product_id it)) = Inl InvalidId) \<longrightarrow>
            create_order fmul fsum new_id order_in db = (Inl InvalidId, db) \<and>
            (\<exists>it \<in> set (items order_in). referenced_product db (product_id it) = None))"
proof (intro conjI impI)
  assume bad: "\<exists>it \<in> set (items order_in). ObjectId (lower (product_id it)) = Inl InvalidId"
  then show "create_order fmul fsum new_id order_in db = (Inl InvalidId, db)"
    by (rule create_order_invalid_id [OF valid])
  from bad obtain it where it: "it \<in> set (items order_in)"
    and b: "ObjectId (lower (product_id it)) = Inl InvalidId"
    by blast
  from b have "referenced_product db (product_id it) = None"
    by (simp add: referenced_product_def)
  with it show "\<exists>it \<in> set (items order_in). referenced_product db (product_id it) = None"
    by blast
next
  assume wf: "list_all (\<lambda>it. hex24 (product_id it)) (items order_in)"
  show "fst (create_order fmul fsum new_id order_in db) =
           Inl (HTTPException 400 ''One or more products not found'') \<longleftrightarrow>
         (\<exists>it \<in> set (items order_in). referenced_product db (product_id it) = None) \<or>
         \<not> distinct (map (\<lambda>it. lower (product_id it)) (items order_in))"
  proof
    assume "(\<exists>it \<in> set (items order_in). referenced_product db (product_id it) = None) \<or>
         \<not> distinct (map (\<lambda>it. lower (product_id it)) (items order_in))"
    then show "fst (create_order fmul fsum new_id order_in db) =
             Inl (HTTPException 400 ''One or more products not found'')"
    proof
      assume "\<exists>it \<in> set (items order_in). referenced_product db (product_id it) = None"
      then show ?thesis
        by (simp add: create_order_unresolved [OF valid wf])
    next
      assume "\<not> distinct (map (\<lambda>it. lower (product_id it)) (items order_in))"
      then show ?thesis
        by (simp add: create_order_duplicate_ids [OF valid wf])
    qed
  next
    assume e: "fst (create_order fmul fsum new_id order_in db) =
             Inl (HTTPException 400 ''One or more products not found'')"
    show "(\<exists>it \<in> set (items order_in). referenced_product db (product_id it) = None) \<or>
         \<not> distinct (map (\<lambda>it. lower (product_id it)) (items order_in))"
    proof (rule ccontr)
      assume n: "\<not> ((\<exists>it \<in> set (items order_in). referenced_product db (product_id it) = None) \<or>
         \<not> distinct (map (\<lambda>it. lower (product_id it)) (items order_in)))"
      then have exist:
        "\<forall>it \<in> set (items order_in). referenced_product db (product_id it) \<noteq> None"
        by simp
      from n have dist: "distinct (map (\<lambda>it. lower (product_id it)) (items order_in))"
        by simp
      from create_order_resolved_not_400 [OF valid exist dist store] e
      show False by blast
    qed
  qed
qed

theorem create_order_not_found_condition_witness:
  "list_all (\<lambda>it. referenced_product example_db (product_id it) \<noteq> None)
     (items order_duplicate_lines) \<and>
   fst (create_order exact_mul exact_sum fresh_id order_duplicate_lines example_db) =
     Inl (HTTPException 400 ''One or more products not found'') \<and>
   fst (create_order exact_mul exact_sum fresh_id order_unknown_product example_db) =
     Inl (HTTPException 400 ''One or more products not found'') \<and>
   fst (create_order exact_mul exact_sum fresh_id order_two_lines example_db) \<noteq>
     Inl (HTTPException 400 ''One or more products not found'') \<and>
   referenced_product example_db ''xyz'' = None \<and>
   create_order exact_mul exact_sum fresh_id order_malformed_id example_db =
     (Inl InvalidId, example_db)"
proof -
  have store: "distinct (map product_oid (products example_db))"
    by code_simp
  have v0: "valid_OrderIn order_duplicate_lines"
    and w0: "list_all (\<lambda>it. hex24 (product_id it)) (items order_duplicate_lines)"
    and d0: "\<not> distinct (map (\<lambda>it. lower (product_id it)) (items order_duplicate_lines))"
    and u0: "list_all (\<lambda>it. referenced_product example_db (product_id it) \<noteq> None)
      (items order_duplicate_lines)"
    by code_simp+
  have v1: "valid_OrderIn order_unknown_product"
    and w1: "list_all (\<lambda>it. hex24 (product_id it)) (items order_unknown_product)"
    and u1: "\<exists>it \<in> set (items order_unknown_product).
               referenced_product example_db (product_id it) = None"
    by code_simp+
  have v2: "valid_OrderIn order_two_lines"
    and w2: "list_all (\<lambda>it. hex24 (product_id it)) (items order_two_lines)"
    and d2: "distinct (map (\<lambda>it. lower (product_id it)) (items order_two_lines))"
    and u2: "\<not> (\<exists>it \<in> set (items order_two_lines).
                  referenced_product example_db (product_id it) = None)"
    by code_simp+
  have v3: "valid_OrderIn order_malformed_id"
    and w3: "\<exists>it \<in> set (items order_malformed_id).
               ObjectId (lower (product_id it)) = Inl InvalidId"
    and u3: "referenced_product example_db ''xyz'' = None"
    by code_simp+
  from create_order_not_found_condition [OF v0 store,
      where fmul = exact_mul and fsum = exact_sum and new_id = fresh_id] w0 d0
  have r0: "fst (create_order exact_mul exact_sum fresh_id order_duplicate_lines example_db) =
     Inl (HTTPException 400 ''One or more products not found'')"
    by blast
  from create_order_not_found_condition [OF v1 store,
      where fmul = exact_mul and fsum = exact_sum and new_id = fresh_id] w1 u1
  have r1: "fst (create_order exact_mul exact_sum fresh_id order_unknown_product example_db) =
     Inl (HTTPException 400 ''One or more products not found'')"
    by blast
  from create_order_not_found_condition [OF v2 store,
      where fmul = exact_mul and fsum = exact_sum and new_id = fresh_id] w2 d2 u2
  have r2: "fst (create_order exact_mul exact_sum fresh_id order_two_lines example_db) \<noteq>
     Inl (HTTPException 400 ''One or more products not found'')"
    by blast
  from create_order_not_found_condition [OF v3 store,
      where fmul = exact_mul and fsum = exact_sum and new_id = fresh_id] w3
  have r3: "create_order exact_mul exact_sum fresh_id order_malformed_id example_db =
     (Inl InvalidId, example_db)"
    by blast
  from u0 r0 r1 r2 u3 r3 show ?thesis by blast
qed

text \<open>
  C5, counterexample. The request with the user "Alice" and an empty list of items is
  valid, and \<open>create_order\<close> answers it with an order of total 0 and persists that
  order.
\<close>

theorem create_order_empty_items_counterexample:
  "valid_OrderIn order_no_items \<and> items order_no_items = [] \<and>
   create_order exact_mul exact_sum fresh_id order_no_items example_db =
     (Inr (order_out doc_no_items), example_db\<lparr>orders := [doc_no_items]\<rparr>)"
  by code_simp

text \<open>
  C5, amended. An empty list of items is accepted: for every request with a non-empty
  user identifier and no items, and a generated identifier new to the orders collection,
  \<open>create_order\<close> succeeds, and it persists and returns an order with no items whose
  total is the sum of the empty list.
\<close>

theorem create_order_empty_items:
  assumes "user_id order_in \<noteq> []" and "items order_in = []"
      and "new_id \<notin> set (map order_oid (orders db))"
  shows "create_order fmul fsum new_id order_in db =
     (Inr \<lparr>user_id = lower (user_id order_in), items = [], order_out_id = str_oid new_id,
           total = fsum []\<rparr>,
      db\<lparr>orders := orders db @
        [\<lparr>order_oid = new_id, order_user_id = lower (user_id order_in), order_items = [],
          order_total = fsum []\<rparr>]\<rparr>)"
  using assms
  by (simp add: create_order_def valid_OrderIn_def to_lowercase_def to_list_def find_id_in_def
      dict_of_def insert_one_def Suc_le_eq Let_def)

theorem create_order_empty_items_witness:
  "orders (snd (create_order exact_mul exact_sum fresh_id order_no_items example_db)) =
     [doc_no_items]"
proof -
  have u: "user_id order_no_items \<noteq> []" and i: "items order_no_items = []"
    and f: "fresh_id \<notin> set (map order_oid (orders example_db))"
    by code_simp+
  have d: "\<lparr>order_oid = fresh_id, order_user_id = lower (user_id order_no_items), order_items = [],
          order_total = exact_sum []\<rparr> = doc_no_items"
    by code_simp
  have o: "orders example_db = []"
    by code_simp
  from create_order_empty_items [OF u i f, of exact_mul exact_sum] d o
  show ?thesis by simp
qed

section \<open>Order creation and the Order Store\<close>

text \<open>
  C4. Order creation is atomic with respect to the Order Store: when \<open>create_order\<close>
  fails, whatever the failure, the database after the call is the database before it;
  when it succeeds, the products are untouched and the orders collection is the old one
  with exactly one document appended, under the generated identifier.
\<close>

theorem create_order_atomic:
  "case create_order fmul fsum new_id order_in db of
     (Inl e, db') \<Rightarrow> db' = db
   | (Inr r, db') \<Rightarrow>
       products db' = products db \<and>
       (\<exists>doc. orders db' = orders db @ [doc] \<and> order_oid doc = new_id)"
  by (auto simp: create_order_def insert_one_def Let_def split: sum.splits if_splits)

theorem create_order_atomic_witness:
  "snd (create_order exact_mul exact_sum fresh_id order_unknown_product example_db) = example_db \<and>
   length (orders (snd (create_order exact_mul exact_sum fresh_id order_two_lines example_db))) = 1"
proof -
  have e1: "fst (create_order exact_mul exact_sum fresh_id order_unknown_product example_db) =
      Inl (HTTPException 400 ''One or more products not found'')"
    by code_simp
  have e2: "fst (create_order exact_mul exact_sum fresh_id order_two_lines example_db) =
      Inr (order_out doc_two_lines)"
    by code_simp
  have o: "orders example_db = []"
    by (simp add: example_db_def)
  from create_order_atomic [where fmul = exact_mul and fsum = exact_sum and new_id = fresh_id
      and order_in = order_unknown_product and db = example_db] e1
  have a: "snd (create_order exact_mul exact_sum fresh_id order_unknown_product example_db) =
      example_db"
    by (cases "create_order exact_mul exact_sum fresh_id order_unknown_product example_db") simp
  from create_order_atomic [where fmul = exact_mul and fsum = exact_sum and new_id = fresh_id
      and order_in = order_two_lines and db = example_db] e2 o
  have b: "length (orders (snd (create_order exact_mul exact_sum fresh_id order_two_lines
      example_db))) = 1"
    by (cases "create_order exact_mul exact_sum fresh_id order_two_lines example_db") auto
  from a b show ?thesis by simp
qed

text \<open>
  C9. The response of a successful \<open>create_order\<close> is the persisted document: the one
  document appended to the orders collection carries the normalized user identifier and
  items and the total that the response shows, and the identifier of the response is the
  string rendering of the document's identifier.
\<close>

theorem create_order_response_persisted:
  assumes "create_order fmul fsum new_id order_in db = (Inr r, db')"
  shows "\<exists>doc. orders db' = orders db @ [doc] \<and> r = order_out doc \<and>
           order_oid doc = new_id \<and>
           order_user_id doc = lower (user_id order_in) \<and>
           order_items doc = items (to_lowercase order_in) \<and>
           user_id r = order_user_id doc \<and> items r = order_items doc \<and>
           total r = order_total doc \<and> order_out_id r = str_oid (order_oid doc)"
  using assms
  by (auto simp: create_order_def insert_one_def Let_def order_out_def to_lowercase_def
      split: sum.splits if_splits)

theorem create_order_response_persisted_witness:
  "\<exists>doc. orders (example_db\<lparr>orders := [doc_two_lines]\<rparr>) = orders example_db @ [doc] \<and>
         order_out doc_two_lines = order_out doc \<and> order_total doc = 30 \<and>
         order_user_id doc = ''alice''"
proof -
  have e: "create_order exact_mul exact_sum fresh_id order_two_lines example_db =
      (Inr (order_out doc_two_lines), example_db\<lparr>orders := [doc_two_lines]\<rparr>)"
    by code_simp
  have t: "total (order_out doc_two_lines) = 30"
    by (simp add: order_out_def doc_two_lines_def)
  have u: "lower (user_id order_two_lines) = ''alice''"
    by code_simp
  from create_order_response_persisted [OF e] t u show ?thesis
    by auto
qed

section \<open>Listing the orders of a user\<close>

text \<open>
  C6, counterexample. The user "alice" has ten orders. An eleventh is created for
  "Alice", under an identifier greater than the ten. The listing for "alice" with the
  default \<^verbatim>\<open>limit=10\<close> and \<^verbatim>\<open>offset=0\<close> returns the ten earlier orders and not the
  created one.
\<close>

theorem created_order_listed_counterexample:
  "create_order exact_mul exact_sum fresh_id order_two_lines ten_orders_db =
     (Inr (order_out doc_two_lines),
      ten_orders_db\<lparr>orders := orders ten_orders_db @ [doc_two_lines]\<rparr>) \<and>
   list_orders ''alice'' 10 0 (ten_orders_db\<lparr>orders := orders ten_orders_db @ [doc_two_lines]\<rparr>) =
     Inr (map order_out (orders ten_orders_db)) \<and>
   order_out doc_two_lines \<notin> set (map order_out (orders ten_orders_db))"
  by code_simp

text \<open>
  C6, amended. User identifiers are matched without case. After a successful
  \<open>create_order\<close>, on a store with no two orders under one \<^verbatim>\<open>_id\<close>, the listing for
  any casing variant of the user identifier returns the created order on the page that
  covers its position, the number of that user's orders with a smaller identifier: the
  position is at least \<^verbatim>\<open>offset\<close> and less than \<^verbatim>\<open>offset + limit\<close>. The listing for a
  casing variant is the listing for the identifier as given at creation.
\<close>

theorem created_order_listed:
  assumes created: "create_order fmul fsum new_id order_in db = (Inr r, db')"
      and store: "distinct (map order_oid (orders db))"
      and variant: "lower uid = lower (user_id order_in)"
      and lim: "1 \<le> limit" "limit \<le> 100" "0 \<le> offset"
      and window:
        "nat offset \<le> length (filter (\<lambda>d. order_user_id d = lower uid \<and>
                                   str_oid (order_oid d) < str_oid new_id) (orders db))"
        "length (filter (\<lambda>d. order_user_id d = lower uid \<and>
                         str_oid (order_oid d) < str_oid new_id) (orders db)) < nat offset + nat limit"
  shows "\<exists>page. list_orders uid limit offset db' = Inr page \<and> r \<in> set page \<and>
           list_orders (user_id order_in) limit offset db' = Inr page"
proof -
  let ?key = "\<lambda>d. str_oid (order_oid d)"
  let ?mine = "\<lambda>d. order_user_id d = lower uid"
  from create_order_success [OF created] obtain doc where
    fresh: "new_id \<notin> set (map order_oid (orders db))"
    and db': "orders db' = orders db @ [doc]" and r: "r = order_out doc"
    and oid: "order_oid doc = new_id" and uid: "order_user_id doc = lower (user_id order_in)"
    by blast
  define L where "L = sort_key ?key (filter ?mine (orders db'))"
  define k where "k = length (filter (\<lambda>d. ?mine d \<and> ?key d < str_oid new_id) (orders db))"
  have mine: "?mine doc" using uid variant by simp
  have "distinct (map order_oid (orders db'))"
    using store fresh oid by (simp add: db')
  then have d: "distinct (orders db')" and i: "inj_on order_oid (set (orders db'))"
    by (simp_all add: distinct_map)
  from i have "inj_on ?key (set (orders db'))"
    by (auto simp: inj_on_def dest: injD [OF inj_str_oid])
  then have "inj_on ?key (set (filter ?mine (orders db')))"
    by (rule inj_on_subset) auto
  with d have dist: "distinct (map ?key L)"
    by (simp add: L_def distinct_map)
  have srt: "sorted (map ?key L)"
    unfolding L_def by (rule sorted_sort_key)
  have mem: "doc \<in> set L"
    using mine by (simp add: L_def db')
  have "length (filter (\<lambda>y. ?key y < ?key doc) L) =
      length (filter (\<lambda>y. ?key y < ?key doc) (filter ?mine (orders db')))"
    unfolding L_def filter_sort by simp
  also have "\<dots> = k"
    by (simp add: db' k_def oid conj_commute)
  finally have pos: "length (filter (\<lambda>y. ?key y < ?key doc) L) = k" .
  from nth_in_sorted [OF srt dist mem] pos have "k < length L" and "L ! k = doc"
    by simp_all
  from in_page [OF this, of "nat offset" "nat limit"] window
  have "doc \<in> set (take (nat limit) (drop (nat offset) L))"
    by (simp add: k_def)
  then have "r \<in> set (map order_out (take (nat limit) (drop (nat offset) L)))"
    using r by simp
  moreover have "list_orders uid limit offset db' =
      Inr (map order_out (take (nat limit) (drop (nat offset) L)))"
    using lim by (simp add: list_orders_def to_list_def L_def)
  moreover have "list_orders (user_id order_in) limit offset db' = list_orders uid limit offset db'"
    using variant by (simp add: list_orders_def)
  ultimately show ?thesis by simp
qed

theorem created_order_listed_witness:
  "\<exists>page. list_orders ''ALICE'' 10 0 (example_db\<lparr>orders := [doc_two_lines]\<rparr>) = Inr page \<and>
     order_out doc_two_lines \<in> set page"
proof -
  have created: "create_order exact_mul exact_sum fresh_id order_two_lines example_db =
      (Inr (order_out doc_two_lines), example_db\<lparr>orders := [doc_two_lines]\<rparr>)"
    by code_simp
  have store: "distinct (map order_oid (orders example_db))"
    by code_simp
  have variant: "lower ''ALICE'' = lower (user_id order_two_lines)"
    by code_simp
  have lim: "(1::int) \<le> 10" "(10::int) \<le> 100" "(0::int) \<le> 0"
    by simp_all
  have w1: "nat 0 \<le> length (filter (\<lambda>d. order_user_id d = lower ''ALICE'' \<and>
                                   str_oid (order_oid d) < str_oid fresh_id) (orders example_db))"
    by simp
  have w2: "length (filter (\<lambda>d. order_user_id d = lower ''ALICE'' \<and>
                         str_oid (order_oid d) < str_oid fresh_id) (orders example_db)) < nat 0 + nat 10"
    by (simp add: example_db_def)
  from created_order_listed [OF created store variant lim w1 w2]
  show ?thesis by blast
qed

section \<open>Product listing\<close>

text \<open>
  C10. In \<open>list_products\<close> an empty string for \<^verbatim>\<open>name\<close> or for \<^verbatim>\<open>size\<close> is
  treated as the parameter left out: the answer is the one obtained without the
  parameter, not a match against the empty string.
\<close>

theorem list_products_empty_param:
  "list_products (Some []) size_q limit offset db = list_products None size_q limit offset db \<and>
   list_products name_q (Some []) limit offset db = list_products name_q None limit offset db"
proof
  show "list_products (Some []) size_q limit offset db = list_products None size_q limit offset db"
    by (simp add: list_products_def name_filter_def)
  have h: "size_filter (Some []) = size_filter None"
    by (simp add: size_filter_def)
  show "list_products name_q (Some []) limit offset db = list_products name_q None limit offset db"
    unfolding list_products_def h by (rule refl)
qed

theorem list_products_empty_param_witness:
  "list_products (Some []) (Some []) 10 0 example_db =
     Inr [product_out product_P1, product_out product_P2]"
proof -
  have e: "list_products None None 10 0 example_db =
      Inr [product_out product_P1, product_out product_P2]"
    by code_simp
  have "list_products (Some []) (Some []) 10 0 example_db =
      list_products None None 10 0 example_db"
    using list_products_empty_param [of "Some []" 10 0 example_db]
      list_products_empty_param [of None 10 0 example_db]
    by simp
  with e show ?thesis by simp
qed

text \<open>
  C7. For a store with no two products under one \<^verbatim>\<open>_id\<close>, a page returned by
  \<open>list_products\<close> holds at most \<^verbatim>\<open>limit\<close> records, in strictly ascending order of
  identifier; it is the cut, after skipping \<^verbatim>\<open>offset\<close> records and of length at most
  \<^verbatim>\<open>limit\<close>, of the matching products in ascending order of identifier; it shares no
  record with the next page (\<^verbatim>\<open>offset + limit\<close>); and with fifteen stored products the
  unfiltered pages \<^verbatim>\<open>limit=10, offset=0\<close> and \<^verbatim>\<open>limit=10, offset=10\<close> hold ten and five
  records, disjoint, and ascending when put one after the other.
\<close>

theorem list_products_pagination:
  assumes store: "distinct (map product_oid (products db))"
      and page: "list_products name_q size_q limit offset db = Inr page"
  shows "length page \<le> nat limit \<and>
         sorted_wrt (<) (map product_out_id page) \<and>
         (\<exists>qn full. name_filter name_q = Inr qn \<and>
            set full = product_out `
              {p \<in> set (products db). matches_query \<lparr>q_name = qn, q_size = size_filter size_q\<rparr> p} \<and>
            sorted_wrt (<) (map product_out_id full) \<and>
            page = take (nat limit) (drop (nat offset) full)) \<and>
         (\<forall>page'. list_products name_q size_q limit (offset + limit) db = Inr page' \<longrightarrow>
            set page \<inter> set page' = {}) \<and>
         (length (products db) = 15 \<longrightarrow>
            (\<exists>p0 p1. list_products None None 10 0 db = Inr p0 \<and>
               list_products None None 10 10 db = Inr p1 \<and>
               length p0 = 10 \<and> length p1 = 5 \<and> set p0 \<inter> set p1 = {} \<and>
               sorted_wrt (<) (map product_out_id (p0 @ p1))))"
proof -
  let ?key = "\<lambda>p. str_oid (product_oid p)"
  from list_products_Inr [OF page] obtain qn where
    lim: "1 \<le> limit" "limit \<le> 100" "0 \<le> offset" and qn: "name_filter name_q = Inr qn"
    and pg: "page = take (nat limit) (drop (nat offset)
              (map product_out (sort_key ?key
                 (filter (matches_query \<lparr>q_name = qn, q_size = size_filter size_q\<rparr>) (products db)))))"
    by blast
  define full where "full = map product_out (sort_key ?key
                 (filter (matches_query \<lparr>q_name = qn, q_size = size_filter size_q\<rparr>) (products db)))"
  have ids: "map product_out_id full = map ?key (sort_key ?key
                 (filter (matches_query \<lparr>q_name = qn, q_size = size_filter size_q\<rparr>) (products db)))"
    by (simp add: full_def product_out_id_out comp_def)
  have sorted_full: "sorted_wrt (<) (map product_out_id full)"
    unfolding ids by (rule sorted_by_id [OF store])
  then have "distinct (map product_out_id full)"
    by (simp add: strict_sorted_iff)
  then have dist_full: "distinct full"
    by (simp add: distinct_map)
  have set_full: "set full = product_out `
              {p \<in> set (products db). matches_query \<lparr>q_name = qn, q_size = size_filter size_q\<rparr> p}"
    by (simp add: full_def)
  have pg': "page = take (nat limit) (drop (nat offset) full)"
    using pg by (simp only: full_def)
  have c1: "length page \<le> nat limit"
    by (simp add: pg')
  have c2: "sorted_wrt (<) (map product_out_id page)"
    unfolding pg' take_map [symmetric] drop_map [symmetric]
    using sorted_full by (intro sorted_wrt_take sorted_wrt_drop)
  have c4: "set page \<inter> set page' = {}"
    if "list_products name_q size_q limit (offset + limit) db = Inr page'" for page'
  proof -
    from list_products_Inr [OF that] qn
    have "page' = take (nat limit) (drop (nat (offset + limit)) full)"
      by (auto simp: full_def)
    moreover have "nat (offset + limit) = nat offset + nat limit"
      using lim by simp
    ultimately show ?thesis
      unfolding pg' using disjoint_pages [OF dist_full] by simp
  qed
  have c5: "\<exists>p0 p1. list_products None None 10 0 db = Inr p0 \<and>
               list_products None None 10 10 db = Inr p1 \<and>
               length p0 = 10 \<and> length p1 = 5 \<and> set p0 \<inter> set p1 = {} \<and>
               sorted_wrt (<) (map product_out_id (p0 @ p1))"
    if n: "length (products db) = 15"
  proof -
    define all where "all = map product_out (sort_key ?key (products db))"
    have len: "length all = 15"
      using n by (simp add: all_def)
    have e0: "list_products None None 10 0 db = Inr (take 10 all)"
      by (simp add: list_products_def name_filter_def size_filter_def matches_query_def
          to_list_def all_def take_map)
    have e1: "list_products None None 10 10 db = Inr (drop 10 all)"
      using n by (simp add: list_products_def name_filter_def size_filter_def matches_query_def
          to_list_def all_def take_map drop_map)
    have "map product_out_id all = map ?key (sort_key ?key (filter (\<lambda>p. True) (products db)))"
      by (simp add: all_def product_out_id_out comp_def)
    then have s: "sorted_wrt (<) (map product_out_id all)"
      using sorted_by_id [OF store, of "\<lambda>p. True"] by simp
    then have "distinct (map product_out_id all)"
      by (simp add: strict_sorted_iff)
    then have d: "distinct all"
      by (simp add: distinct_map)
    have disj: "set (take 10 all) \<inter> set (drop 10 all) = {}"
      using d by (intro set_take_disj_set_drop_if_distinct) simp_all
    have s': "sorted_wrt (<) (map product_out_id (take 10 all @ drop 10 all))"
      using s by (simp only: append_take_drop_id)
    have l0: "length (take 10 all) = 10" and l1: "length (drop 10 all) = 5"
      using len by simp_all
    show ?thesis
      by (rule exI [of _ "take 10 all"], rule exI [of _ "drop 10 all"])
        (intro conjI e0 e1 l0 l1 disj s')
  qed
  from c1 c2 qn set_full sorted_full pg' c4 c5 show ?thesis
    by blast
qed

theorem list_products_pagination_witness:
  "\<exists>p0 p1. list_products None None 10 0 fifteen_products_db = Inr p0 \<and>
     list_products None None 10 10 fifteen_products_db = Inr p1 \<and>
     length p0 = 10 \<and> length p1 = 5 \<and> set p0 \<inter> set p1 = {} \<and>
     map product_out_id p1 =
       [''64b7f000000000000000000b'', ''64b7f000000000000000000c'', ''64b7f000000000000000000d'',
        ''64b7f000000000000000000e'', ''64b7f000000000000000000f'']"
proof -
  have store: "distinct (map product_oid (products fifteen_products_db))"
    by code_simp
  have page: "list_products None None 10 10 fifteen_products_db =
      Inr (map (\<lambda>s. product_out (numbered_product s)) [''0b'', ''0c'', ''0d'', ''0e'', ''0f''])"
    by code_simp
  have n: "length (products fifteen_products_db) = 15"
    by code_simp
  have ids: "map product_out_id (map (\<lambda>s. product_out (numbered_product s))
      [''0b'', ''0c'', ''0d'', ''0e'', ''0f'']) =
       [''64b7f000000000000000000b'', ''64b7f000000000000000000c'', ''64b7f000000000000000000d'',
        ''64b7f000000000000000000e'', ''64b7f000000000000000000f'']"
    by code_simp
  from list_products_pagination [OF store page] n page ids
  show ?thesis by auto
qed

text \<open>
  C8, counterexample. The \<^verbatim>\<open>name\<close> parameter "b.u" returns the product named
  "blue shirt", whose name does not contain the string "b.u": the dot of the regular
  expression matches the letter l.
\<close>

theorem list_products_name_counterexample:
  "list_products (Some ''b.u'') None 10 0 example_db = Inr [product_out product_P1] \<and>
   \<not> contains_ci ''b.u'' (product_name product_P1)"
  by code_simp

text \<open>
  C8, amended. The \<^verbatim>\<open>name\<close> parameter is a case-insensitive regular expression. For a
  name without regular-expression metacharacters, \<open>list_products\<close> returns the page
  (\<^verbatim>\<open>limit\<close>, \<^verbatim>\<open>offset\<close>, ascending identifier) of exactly those products whose name
  contains the name as a substring, ignoring case (and that pass the \<^verbatim>\<open>size\<close> filter,
  when one is given).
\<close>

theorem list_products_name_filter:
  assumes lit: "literal_pattern s"
      and lim: "1 \<le> limit" "limit \<le> 100" "0 \<le> offset"
  shows "list_products (Some s) size_q limit offset db =
           Inr (map product_out (take (nat limit) (drop (nat offset)
             (sort_key (\<lambda>p. str_oid (product_oid p))
               (filter (\<lambda>p. contains_ci s (product_name p) \<and>
                             matches_query \<lparr>q_name = None, q_size = size_filter size_q\<rparr> p)
                  (products db))))))"
proof (cases "s = []")
  case True
  have "contains_ci [] t" for t
    by (simp add: contains_ci_def lower_def)
  with True lim show ?thesis
    by (simp add: list_products_def name_filter_def to_list_def)
next
  case False
  have m: "filter (matches_query \<lparr>q_name = Some (map Lit s), q_size = size_filter size_q\<rparr>)
        (products db) =
      filter (\<lambda>p. contains_ci s (product_name p) \<and>
                 matches_query \<lparr>q_name = None, q_size = size_filter size_q\<rparr> p) (products db)"
    by (rule filter_cong) (simp_all add: matches_query_def rx_search_literal)
  from lim show ?thesis
    by (simp add: list_products_def name_filter_literal [OF lit False] to_list_def m)
qed

theorem list_products_name_filter_witness:
  "list_products (Some ''SHIRT'') None 10 0 example_db = Inr [product_out product_P1] \<and>
   contains_ci ''SHIRT'' (product_name product_P1) \<and>
   \<not> contains_ci ''SHIRT'' (product_name product_P2)"
proof -
  have lit: "literal_pattern ''SHIRT''"
    by code_simp
  have e: "map product_out (take (nat 10) (drop (nat 0)
             (sort_key (\<lambda>p. str_oid (product_oid p))
               (filter (\<lambda>p. contains_ci ''SHIRT'' (product_name p) \<and>
                             matches_query \<lparr>q_name = None, q_size = size_filter None\<rparr> p)
                  (products example_db))))) = [product_out product_P1]"
    by code_simp
  have c: "contains_ci ''SHIRT'' (product_name product_P1) \<and>
   \<not> contains_ci ''SHIRT'' (product_name product_P2)"
    by code_simp
  from list_products_name_filter [OF lit, of 10 0 None example_db] e c
  show ?thesis by simp
qed

end
